theory Spec2Isabelle
  imports Main "HOL-Library.Word" "HOL-Library.Log_Nat" "HOL-Library.Sublist"
begin

unbundle bit_operations_syntax

section \<open>JavaScript numbers\<close>

text \<open>
  The driver computes with JavaScript numbers: IEEE 754 binary64 values. A finite number
  is modelled by the rational it denotes, and an arithmetic operation is the exact
  operation followed by rounding to the nearest binary64 value, ties to even
  (\<open>round_double\<close>). The bit rate is an integer (the data model of the driver: a number of
  bits per second), so the only non-finite value the encoder can produce is the
  \<open>Infinity\<close> of a division by zero; \<open>NegInfinity\<close> is there to make subtraction total.
  For an integer bit rate that a binary64 value can hold, every quotient and difference
  below lies in the normal range, so the exponent range is not modelled.
\<close>

datatype number = Num rat | Infinity | NegInfinity

definition round_half_even :: "rat \<Rightarrow> int" where
  "round_half_even x =
     (let f = \<lfloor>x\<rfloor>; r = x - of_int f
      in if r < 1 / 2 then f
         else if 1 / 2 < r then f + 1
         else if even f then f else f + 1)"

text \<open>\<open>binade x\<close> is the exponent \<open>e\<close> with \<open>2 powi e \<le> x < 2 powi (e + 1)\<close>, for \<open>0 < x\<close>.\<close>

definition binade :: "rat \<Rightarrow> int" where
  "binade x =
     (let d = bitlen (fst (quotient_of x)) - bitlen (snd (quotient_of x))
      in if 2 powi d \<le> x then d else d - 1)"

definition round_double :: "rat \<Rightarrow> rat" where
  "round_double x =
     (if x = 0 then 0
      else let ulp = 2 powi (binade \<bar>x\<bar> - 52)
           in sgn x * of_int (round_half_even (\<bar>x\<bar> / ulp)) * ulp)"

text \<open>\<open>a / b\<close> for finite \<open>a\<close> and \<open>b\<close>, with \<open>0 < a\<close> (the only dividend is a positive constant).\<close>

definition js_div :: "rat \<Rightarrow> rat \<Rightarrow> number" where
  "js_div a b = (if b = 0 then Infinity else Num (round_double (a / b)))"

text \<open>\<open>a - x\<close> for a finite \<open>a\<close>.\<close>

fun js_sub :: "rat \<Rightarrow> number \<Rightarrow> number" where
  "js_sub a (Num x) = Num (round_double (a - x))"
| "js_sub a Infinity = NegInfinity"
| "js_sub a NegInfinity = Infinity"

text \<open>\<open>x > c\<close> for a finite \<open>c\<close>.\<close>

fun js_gt :: "number \<Rightarrow> rat \<Rightarrow> bool" where
  "js_gt (Num x) c = (c < x)"
| "js_gt Infinity c = True"
| "js_gt NegInfinity c = False"

text \<open>
  The operands of \<open>>>\<close>, \<open>&\<close>, \<open>|\<close> and \<open>~\<close> are converted by ToInt32: truncate towards
  zero, reduce modulo \<open>2 ^ 32\<close>, read as two's complement; a non-finite number gives 0.
\<close>

fun ToInt32 :: "number \<Rightarrow> int" where
  "ToInt32 (Num x) =
     (let n = (if x < 0 then \<lceil>x\<rceil> else \<lfloor>x\<rfloor>); m = n mod 2 ^ 32
      in if 2 ^ 31 \<le> m then m - 2 ^ 32 else m)"
| "ToInt32 Infinity = 0"
| "ToInt32 NegInfinity = 0"

text \<open>\<open>x >> n\<close>: the arithmetic shift of the converted operand, again a number.\<close>

definition js_shr :: "number \<Rightarrow> nat \<Rightarrow> number" where
  "js_shr x n = Num (of_int (drop_bit n (ToInt32 x)))"

section \<open>The USB transport\<close>

text \<open>
  The transport is the WebUSB device object the driver is constructed with. The driver
  sees it through the calls it makes; the model records every call, in order, and the
  device answers a call as a function of the whole history of calls, so that any
  deterministic device, obliging or failing, is one value of \<open>respond\<close>.
\<close>

type_synonym bytes = "8 word list"

text \<open>
  Object identity matters in one place (\<open>checkState\<close> compares two buffers with \<open>!==\<close>),
  so a buffer carries a reference beside its content. An object made by a \<open>new\<close>
  expression of the driver is named by the source line of that expression: such objects
  never leave the call that makes them and are compared only with buffers of the transport.
\<close>

datatype obj_ref = DriverObject nat | ForeignObject nat

record array_buffer =
  ref :: obj_ref
  bytes :: bytes

record data_view =
  buffer :: array_buffer
  byteLength :: nat

datatype usb_status = StatusOk | Stall | Babble

record usb_in_result =
  status :: usb_status
  data :: "data_view option"

datatype usb_call =
    DeviceOpen
  | DeviceClose
  | ClaimInterface int
  | ReleaseInterface int
  | ControlTransferOut int int int
  | ControlTransferIn int int int nat
  | TransferIn int int
  | TransferOut int bytes

text \<open>
  \<open>ControlTransferOut request value index\<close> and \<open>ControlTransferIn request value index length\<close>
  are vendor requests to the device. A promise of the transport either rejects, with a
  reason whose \<open>message\<close> property is given (\<open>None\<close> when the reason has none), or
  resolves, for an in-transfer with a result object.
\<close>

datatype usb_reply = Rejected "string option" | Resolved "usb_in_result option"

datatype usb_direction = DirIn | DirOut | DirOther

datatype endpoint_type = Bulk | Interrupt | Isochronous

record endpoint =
  endpointNumber :: int
  direction :: usb_direction
  etype :: endpoint_type
  packetSize :: int

record interface =
  interfaceNumber :: int
  alternate_endpoints :: "endpoint list"

record usb_device =
  configuration :: "interface list option"
  respond :: "usb_call list \<Rightarrow> usb_reply"

section \<open>The driver\<close>

datatype js_error =
    UnsupportedBaudRate int
  | NoWriteEndpoint
  | TypeError
  | Rejection "string option"

datatype event = Ready | Disconnected | Data bytes | Error js_error

text \<open>The fields of class \<open>CH34xUsbSerial\<close>.\<close>

record driver =
  device :: usb_device
  isClosing :: bool
  bitrate :: int
  readEndpoint :: "endpoint option"
  writeEndpoint :: "endpoint option"
  dtr :: bool
  rts :: bool

text \<open>
  What a run leaves behind: the driver object, the calls made to the transport and the
  events dispatched to the listeners, both oldest first. Console output is not modelled,
  and listeners are taken not to call back into the driver while an event is dispatched.
\<close>

record world =
  self :: driver
  calls :: "usb_call list"
  dispatched :: "event list"

text \<open>
  An asynchronous method is a function from the world to its outcome, \<open>Inl\<close> the value
  it throws (its promise rejects with), and the world it leaves. \<open>await m k\<close> runs \<open>m\<close>
  and continues with \<open>k\<close> on its value; an exception of \<open>m\<close> skips \<open>k\<close>.
\<close>

type_synonym 'a async = "world \<Rightarrow> (js_error + 'a) \<times> world"

definition ret :: "'a \<Rightarrow> 'a async" where
  "ret x w = (Inr x, w)"

definition throw :: "js_error \<Rightarrow> 'a async" where
  "throw e w = (Inl e, w)"

definition await :: "'a async \<Rightarrow> ('a \<Rightarrow> 'b async) \<Rightarrow> 'b async" where
  "await m k w = (case m w of (Inl e, w') \<Rightarrow> (Inl e, w') | (Inr x, w') \<Rightarrow> k x w')"

definition update :: "(driver \<Rightarrow> driver) \<Rightarrow> unit async" where
  "update f w = (Inr (), w\<lparr>self := f (self w)\<rparr>)"

definition dispatchEvent :: "event \<Rightarrow> unit async" where
  "dispatchEvent e w = (Inr (), w\<lparr>dispatched := dispatched w @ [e]\<rparr>)"

definition usb :: "usb_call \<Rightarrow> usb_in_result option async" where
  "usb c w =
     (let w' = w\<lparr>calls := calls w @ [c]\<rparr>
      in case respond (device (self w)) (calls w') of
           Rejected m \<Rightarrow> (Inl (Rejection m), w')
         | Resolved r \<Rightarrow> (Inr r, w'))"

abbreviation REQUEST_READ_VERSION :: int where "REQUEST_READ_VERSION \<equiv> 0x5F"
abbreviation REQUEST_READ_REGISTRY :: int where "REQUEST_READ_REGISTRY \<equiv> 0x95"
abbreviation REQUEST_WRITE_REGISTRY :: int where "REQUEST_WRITE_REGISTRY \<equiv> 0x9A"
abbreviation REQUEST_SERIAL_INITIATION :: int where "REQUEST_SERIAL_INITIATION \<equiv> 0xA1"

abbreviation REG_MODEM_CTRL :: int where "REG_MODEM_CTRL \<equiv> 0xA4"
abbreviation REG_BAUD_FACTOR :: int where "REG_BAUD_FACTOR \<equiv> 0x1312"
abbreviation REG_BAUD_OFFSET :: int where "REG_BAUD_OFFSET \<equiv> 0x0F2C"
abbreviation REG_BAUD_LOW :: int where "REG_BAUD_LOW \<equiv> 0x2518"

abbreviation LCR_ENABLE_RX :: int where "LCR_ENABLE_RX \<equiv> 0x80"
abbreviation LCR_ENABLE_TX :: int where "LCR_ENABLE_TX \<equiv> 0x40"
abbreviation LCR_CS8 :: int where "LCR_CS8 \<equiv> 0x03"

abbreviation SCL_DTR :: int where "SCL_DTR \<equiv> 0x20"
abbreviation SCL_RTS :: int where "SCL_RTS \<equiv> 0x40"

definition constructor :: "usb_device \<Rightarrow> int \<Rightarrow> driver" where
  "constructor dev baudRate =
     \<lparr>device = dev, isClosing = False, bitrate = baudRate,
      readEndpoint = None, writeEndpoint = None, dtr = True, rts = True\<rparr>"

subsection \<open>Register access\<close>

text \<open>\<open>vendorOut\<close> catches the rejection of its transfer and only logs it.\<close>

definition vendorOut :: "int \<Rightarrow> int \<Rightarrow> int \<Rightarrow> unit async" where
  "vendorOut request value index w =
     (case usb (ControlTransferOut request value index) w of (_, w') \<Rightarrow> (Inr (), w'))"

definition vendorIn :: "int \<Rightarrow> int \<Rightarrow> int \<Rightarrow> nat \<Rightarrow> usb_in_result option async" where
  "vendorIn request value index len = usb (ControlTransferIn request value index len)"

text \<open>
  \<open>checkState\<close>: \<open>expected.byteLength\<close> is the length of the expected bytes; reading
  \<open>result.status\<close> of a missing result is a TypeError.
\<close>

definition checkState :: "string \<Rightarrow> int \<Rightarrow> int \<Rightarrow> array_buffer \<Rightarrow> bool async" where
  "checkState msg request value expected =
     await (vendorIn request value 0 (length (bytes expected))) (\<lambda>result.
       case result of
         None \<Rightarrow> throw TypeError
       | Some r \<Rightarrow>
           (case (status r, data r) of
              (StatusOk, Some d) \<Rightarrow>
                if byteLength d \<noteq> length (bytes expected) then ret False
                else if ref (buffer d) \<noteq> ref expected then ret False
                else ret True
            | _ \<Rightarrow> ret False))"

subsection \<open>The baud rate\<close>

function setBaudRate_loop :: "number \<times> int \<Rightarrow> number \<times> int" where
  "setBaudRate_loop (factor, divisor) =
     (if js_gt factor 0xfff0 \<and> 0 < divisor
      then setBaudRate_loop (js_shr factor 3, divisor - 1)
      else (factor, divisor))"
  by pat_completeness auto
termination
  by (relation "measure (\<lambda>(factor, divisor). nat divisor)") auto

declare setBaudRate_loop.simps [simp del]

text \<open>Lines 90 to 113 of \<open>setBaudRate\<close>: the two register values, or the exception.\<close>

definition setBaudRate_values :: "int \<Rightarrow> js_error + int \<times> int" where
  "setBaudRate_values baudRate =
     (let fd =
        (if baudRate = 921600 then Inr (Num 0xf300, 7)
         else
           (let baseFactor = 1532620800; divmax = 3;
                (factor, divisor) = setBaudRate_loop (js_div baseFactor (of_int baudRate), divmax)
            in if js_gt factor 0xfff0 then Inl (UnsupportedBaudRate baudRate)
               else Inr (js_sub 0x10000 factor, divisor)))
      in case fd of
           Inl e \<Rightarrow> Inl e
         | Inr (factor, divisor) \<Rightarrow>
             (let divisor = divisor OR 0x0080;
                  val1 = (ToInt32 factor AND 0xff00) OR divisor;
                  val2 = ToInt32 factor AND 0xff
              in Inr (val1, val2)))"

definition setBaudRate :: "int \<Rightarrow> unit async" where
  "setBaudRate baudRate =
     (case setBaudRate_values baudRate of
        Inl e \<Rightarrow> throw e
      | Inr (val1, val2) \<Rightarrow>
          await (vendorOut REQUEST_WRITE_REGISTRY REG_BAUD_FACTOR val1) (\<lambda>_.
          vendorOut REQUEST_WRITE_REGISTRY REG_BAUD_OFFSET val2))"

subsection \<open>Control lines and initialization\<close>

definition setControlLines :: "unit async" where
  "setControlLines w =
     vendorOut REG_MODEM_CTRL
       (NOT ((if dtr (self w) then SCL_DTR else 0) OR (if rts (self w) then SCL_RTS else 0))) 0 w"

text \<open>\<open>new Uint8Array([-1, 0x00])\<close> holds the bytes 255 and 0.\<close>

definition new_Uint8Array :: "nat \<Rightarrow> bytes \<Rightarrow> array_buffer" where
  "new_Uint8Array line bs = \<lparr>ref = DriverObject line, bytes = bs\<rparr>"

definition init :: "unit async" where
  "init =
     (let DEFAULT_BAUD_RATE = 9600 in
      await (checkState ''init 1'' REQUEST_READ_VERSION 0 (new_Uint8Array 243 [- 1, 0x00])) (\<lambda>_.
      await (vendorOut REQUEST_SERIAL_INITIATION 0 0) (\<lambda>_.
      await (setBaudRate DEFAULT_BAUD_RATE) (\<lambda>_.
      await (checkState ''init 4'' REQUEST_READ_REGISTRY REG_BAUD_LOW (new_Uint8Array 247 [- 1, 0x00])) (\<lambda>_.
      await (vendorOut REQUEST_WRITE_REGISTRY REG_BAUD_LOW (LCR_ENABLE_TX OR LCR_ENABLE_RX OR LCR_CS8)) (\<lambda>_.
      await (checkState ''init 6'' REQUEST_READ_REGISTRY 0x0706 (new_Uint8Array 250 [- 1, - 1])) (\<lambda>_.
      await (vendorOut REQUEST_SERIAL_INITIATION 0x501f 0xd90a) (\<lambda>_.
      await (setBaudRate DEFAULT_BAUD_RATE) (\<lambda>_.
      await setControlLines (\<lambda>_.
      await (checkState ''init 10'' REQUEST_READ_REGISTRY 0x0706 (new_Uint8Array 256 [- 1, - 1])) (\<lambda>_.
      ret ())))))))))))"

subsection \<open>Closing, reading and writing\<close>

text \<open>
  \<open>close\<close>: the release of the interface and the closing of the device run from a timer,
  two seconds later; the delay is not modelled.
\<close>

definition close :: "unit async" where
  "close =
     await (update (\<lambda>d. d\<lparr>isClosing := True\<rparr>)) (\<lambda>_.
     await (dispatchEvent Disconnected) (\<lambda>_.
     await (usb (ReleaseInterface 0)) (\<lambda>_.
     await (usb DeviceClose) (\<lambda>_.
     ret ()))))"

text \<open>
  \<open>readLoop\<close> submits one bulk-in transfer and returns without waiting for it: the
  promise chain on the transfer is neither awaited nor returned.
\<close>

definition readLoop :: "unit async" where
  "readLoop w =
     (case readEndpoint (self w) of
        None \<Rightarrow> close w
      | Some ep \<Rightarrow> (Inr (), w\<lparr>calls := calls w @ [TransferIn (endpointNumber ep) (packetSize ep)]\<rparr>))"

text \<open>
  The chain runs when the transfer settles. \<open>readLoop_then\<close> is the handler of a resolved
  transfer: the event carries a copy of the whole buffer under the view.
\<close>

definition readLoop_then :: "usb_in_result option \<Rightarrow> unit async" where
  "readLoop_then result =
     (case result of
        None \<Rightarrow> ret ()
      | Some r \<Rightarrow>
          (case data r of
             None \<Rightarrow> ret ()
           | Some d \<Rightarrow>
               if byteLength d \<noteq> 0 then dispatchEvent (Data (bytes (buffer d))) else ret ()))"

text \<open>
  \<open>s.indexOf(t)\<close>: the index of the first occurrence of \<open>t\<close> in \<open>s\<close>, or \<open>-1\<close>.
\<close>

fun indexOf_from :: "int \<Rightarrow> string \<Rightarrow> string \<Rightarrow> int" where
  "indexOf_from i [] t = (if t = [] then i else - 1)"
| "indexOf_from i (c # s) t = (if prefix t (c # s) then i else indexOf_from (i + 1) s t)"

definition indexOf :: "string \<Rightarrow> string \<Rightarrow> int" where
  "indexOf s t = indexOf_from 0 s t"

text \<open>
  \<open>readLoop_catch\<close> is the handler of a rejected transfer; the condition of its \<open>if\<close> is a
  number, which counts as true when it is not zero. A reason without a \<open>message\<close> makes
  the handler itself throw.
\<close>

definition readLoop_catch :: "string option \<Rightarrow> unit async" where
  "readLoop_catch msg =
     (case msg of
        None \<Rightarrow> throw TypeError
      | Some m \<Rightarrow>
          if indexOf m ''LIBUSB_TRANSFER_NO_DEVICE'' \<noteq> 0
          then await (dispatchEvent Disconnected) (\<lambda>_. update (\<lambda>d. d\<lparr>isClosing := True\<rparr>))
          else ret ())"

text \<open>\<open>readLoop_finally opened\<close>: \<open>opened\<close> is what \<open>this.device.opened\<close> reads at that moment.\<close>

definition readLoop_finally :: "bool \<Rightarrow> unit async" where
  "readLoop_finally opened w =
     (if \<not> isClosing (self w) \<and> opened then readLoop w else (Inr (), w))"

text \<open>
  One settled transfer: the handler for its outcome, then the \<open>finally\<close> block, which
  runs whatever the handler did. Nothing awaits the chain, so its own outcome is dropped.
\<close>

definition readLoop_handler :: "usb_reply \<Rightarrow> unit async" where
  "readLoop_handler reply =
     (case reply of
        Resolved result \<Rightarrow> readLoop_then result
      | Rejected msg \<Rightarrow> readLoop_catch msg)"

definition readLoop_settled :: "usb_reply \<Rightarrow> bool \<Rightarrow> world \<Rightarrow> world" where
  "readLoop_settled reply opened w =
     snd (readLoop_finally opened (snd (readLoop_handler reply w)))"

definition write_bytes :: "bytes \<Rightarrow> (usb_status \<times> nat) async" where
  "write_bytes bs w =
     (case writeEndpoint (self w) of
        None \<Rightarrow> throw NoWriteEndpoint w
      | Some ep \<Rightarrow>
          await (usb (TransferOut (endpointNumber ep) bs)) (\<lambda>_. ret (StatusOk, length bs)) w)"

subsection \<open>Opening\<close>

text \<open>
  The interfaces are claimed in their order; a claim that fails is caught and logged.
\<close>

definition claim :: "interface \<Rightarrow> unit async" where
  "claim iface w =
     (case usb (ClaimInterface (interfaceNumber iface)) w of (_, w') \<Rightarrow> (Inr (), w'))"

fun claim_all :: "interface list \<Rightarrow> unit async" where
  "claim_all [] = ret ()"
| "claim_all (iface # rest) = await (claim iface) (\<lambda>_. claim_all rest)"

definition assign_endpoint :: "endpoint \<Rightarrow> driver \<Rightarrow> driver" where
  "assign_endpoint ep d =
     (if etype ep = Bulk
      then (case direction ep of
              DirIn \<Rightarrow> d\<lparr>readEndpoint := Some ep\<rparr>
            | DirOut \<Rightarrow> d\<lparr>writeEndpoint := Some ep\<rparr>
            | DirOther \<Rightarrow> d)
      else d)"

text \<open>
  The body of the anonymous function in \<open>open\<close>. With no interface, \<open>dataInterface\<close>
  is undefined and reading its \<open>alternate\<close> is a TypeError.
\<close>

definition open_setup :: "unit async" where
  "open_setup =
     await (usb DeviceOpen) (\<lambda>_. (\<lambda>w.
       let interfaces = (case configuration (device (self w)) of None \<Rightarrow> [] | Some ifs \<Rightarrow> ifs)
       in await (claim_all interfaces) (\<lambda>_.
            if interfaces = [] then throw TypeError
            else
              await (update (fold assign_endpoint (alternate_endpoints (last interfaces)))) (\<lambda>_.
              await init (\<lambda>_.
              await (\<lambda>w. setBaudRate (bitrate (self w)) w) (\<lambda>_.
              await (update (\<lambda>d. d\<lparr>isClosing := False\<rparr>)) (\<lambda>_.
              await readLoop (\<lambda>_.
              dispatchEvent Ready)))))) w))"

definition open_port :: "unit async" where
  "open_port w =
     (case open_setup w of
        (Inl error, w') \<Rightarrow> dispatchEvent (Error error) w'
      | (Inr _, w') \<Rightarrow> (Inr (), w'))"

subsection \<open>The driver in use\<close>

text \<open>
  What a program can do with a driver object: call one of its methods (the two that
  TypeScript marks \<open>private\<close> included, which are ordinary methods at run time), or
  let a pending bulk-in transfer settle.
\<close>

datatype action =
    CallOpen
  | CallClose
  | CallWrite bytes
  | CallSetControlLines
  | CallSetBaudRate int
  | CallVendorOut int int int
  | CallVendorIn int int int nat
  | CallCheckState string int int array_buffer
  | CallInit
  | CallReadLoop
  | TransferSettles usb_reply bool

fun perform :: "action \<Rightarrow> world \<Rightarrow> world" where
  "perform CallOpen w = snd (open_port w)"
| "perform CallClose w = snd (close w)"
| "perform (CallWrite bs) w = snd (write_bytes bs w)"
| "perform CallSetControlLines w = snd (setControlLines w)"
| "perform (CallSetBaudRate baudRate) w = snd (setBaudRate baudRate w)"
| "perform (CallVendorOut request value index) w = snd (vendorOut request value index w)"
| "perform (CallVendorIn request value index len) w = snd (vendorIn request value index len w)"
| "perform (CallCheckState msg request value expected) w =
     snd (checkState msg request value expected w)"
| "perform CallInit w = snd (init w)"
| "perform CallReadLoop w = snd (readLoop w)"
| "perform (TransferSettles reply opened) w = readLoop_settled reply opened w"

definition new_driver :: "usb_device \<Rightarrow> int \<Rightarrow> world" where
  "new_driver dev baudRate = \<lparr>self = constructor dev baudRate, calls = [], dispatched = []\<rparr>"

text \<open>A run of the read loop: the pending transfer settles, time after time.\<close>

definition settle_all :: "(usb_reply \<times> bool) list \<Rightarrow> world \<Rightarrow> world" where
  "settle_all outcomes = fold (\<lambda>(reply, opened). readLoop_settled reply opened) outcomes"

section \<open>Observations\<close>

text \<open>The calls a method makes and the events it dispatches when it runs from \<open>w\<close>.\<close>

definition issued :: "'a async \<Rightarrow> world \<Rightarrow> usb_call list" where
  "issued m w = drop (length (calls w)) (calls (snd (m w)))"

definition fired :: "'a async \<Rightarrow> world \<Rightarrow> event list" where
  "fired m w = drop (length (dispatched w)) (dispatched (snd (m w)))"

text \<open>
  What is left of the result of an in-transfer when the bytes of its buffer are forgotten:
  the status and, of the data, its length and the identity of its buffer.
\<close>

definition forget_bytes :: "usb_in_result \<Rightarrow> usb_status \<times> (nat \<times> obj_ref) option" where
  "forget_bytes r = (status r, map_option (\<lambda>d. (byteLength d, ref (buffer d))) (data r))"

text \<open>A method keeps the control lines when it leaves \<open>dtr\<close> and \<open>rts\<close> as they were.\<close>

definition keeps_lines :: "'a async \<Rightarrow> bool" where
  "keeps_lines m =
     (\<forall>w. dtr (self (snd (m w))) = dtr (self w) \<and> rts (self (snd (m w))) = rts (self w))"

text \<open>
  The loop of \<open>setBaudRate\<close> once more, counting its iterations, and the body of the
  loop on its own.
\<close>

function setBaudRate_iterations :: "number \<times> int \<Rightarrow> nat" where
  "setBaudRate_iterations (factor, divisor) =
     (if js_gt factor 0xfff0 \<and> 0 < divisor
      then Suc (setBaudRate_iterations (js_shr factor 3, divisor - 1))
      else 0)"
  by pat_completeness auto
termination
  by (relation "measure (\<lambda>(factor, divisor). nat divisor)") auto

declare setBaudRate_iterations.simps [simp del]

definition setBaudRate_body :: "number \<times> int \<Rightarrow> number \<times> int" where
  "setBaudRate_body = (\<lambda>(factor, divisor). (js_shr factor 3, divisor - 1))"

section \<open>The specification's baud rate encoder\<close>

text \<open>
  The encoder as section 4.1 of the specification words it, on integers: the quotient
  is floored, the shift is an arithmetic shift, and the factor is \<open>0x10000\<close> minus the
  shifted quotient.
\<close>

function spec_loop :: "int \<times> int \<Rightarrow> int \<times> int" where
  "spec_loop (factor0, divisor) =
     (if 0xFFF0 < factor0 \<and> 0 < divisor
      then spec_loop (drop_bit 3 factor0, divisor - 1)
      else (factor0, divisor))"
  by pat_completeness auto
termination
  by (relation "measure (\<lambda>(factor0, divisor). nat divisor)") auto

declare spec_loop.simps [simp del]

definition spec_encode :: "int \<Rightarrow> js_error + int \<times> int" where
  "spec_encode b =
     (let fd =
        (if b = 921600 then Inr (0xF300, 7)
         else
           (let (factor0, divisor) = spec_loop (1532620800 div b, 3)
            in if 0xFFF0 < factor0 then Inl (UnsupportedBaudRate b)
               else Inr (0x10000 - factor0, divisor)))
      in case fd of
           Inl e \<Rightarrow> Inl e
         | Inr (factor, divisor) \<Rightarrow>
             (let divisor = divisor OR 0x0080
              in Inr ((factor AND 0xFF00) OR divisor, factor AND 0x00FF)))"

text \<open>
  The ten steps of section 4.3 of the specification as transport calls, for a driver
  whose control lines are \<open>dtr\<close> and \<open>rts\<close>. Steps 3 and 8 are two register writes
  each, with the encoding of 9600. The specification names the requests and registers
  but gives no numbers for them: the request codes and register addresses are the
  constants of the source, and a read asks for two bytes.
\<close>

definition spec_init_sequence :: "bool \<Rightarrow> bool \<Rightarrow> usb_call list" where
  "spec_init_sequence dtr_line rts_line =
     [ControlTransferIn 0x5F 0 0 2,
      ControlTransferOut 0xA1 0 0,
      ControlTransferOut 0x9A 0x1312 0xB282,
      ControlTransferOut 0x9A 0x0F2C 0x0C,
      ControlTransferIn 0x95 0x2518 0 2,
      ControlTransferOut 0x9A 0x2518 0xC3,
      ControlTransferIn 0x95 0x0706 0 2,
      ControlTransferOut 0xA1 0x501F 0xD90A,
      ControlTransferOut 0x9A 0x1312 0xB282,
      ControlTransferOut 0x9A 0x0F2C 0x0C,
      ControlTransferOut 0xA4 (NOT ((if dtr_line then 0x20 else 0) OR (if rts_line then 0x40 else 0))) 0,
      ControlTransferIn 0x95 0x0706 0 2]"

section \<open>Example devices\<close>

text \<open>
  A CH340 as WebUSB shows it: one interface with an interrupt endpoint and two bulk
  endpoints. \<open>obliging_device\<close> resolves every transfer, an in-transfer with two bytes
  in a buffer of its own; \<open>write_rejecting_device\<close> answers the control-in reads in
  that way and rejects every other transfer, the register writes among them;
  \<open>unplugged_device\<close> rejects every transfer.
\<close>

definition bulk_in :: endpoint where
  "bulk_in = \<lparr>endpointNumber = 2, direction = DirIn, etype = Bulk, packetSize = 32\<rparr>"

definition bulk_out :: endpoint where
  "bulk_out = \<lparr>endpointNumber = 2, direction = DirOut, etype = Bulk, packetSize = 32\<rparr>"

definition interrupt_in :: endpoint where
  "interrupt_in = \<lparr>endpointNumber = 1, direction = DirIn, etype = Interrupt, packetSize = 8\<rparr>"

definition ch340_interfaces :: "interface list" where
  "ch340_interfaces =
     [\<lparr>interfaceNumber = 0, alternate_endpoints = [bulk_in, bulk_out, interrupt_in]\<rparr>]"

definition two_bytes :: usb_in_result where
  "two_bytes =
     \<lparr>status = StatusOk,
      data = Some \<lparr>buffer = \<lparr>ref = ForeignObject 0, bytes = [0x31, 0x00]\<rparr>, byteLength = 2\<rparr>\<rparr>"

definition other_two_bytes :: usb_in_result where
  "other_two_bytes =
     \<lparr>status = StatusOk,
      data = Some \<lparr>buffer = \<lparr>ref = ForeignObject 0, bytes = [0x27, 0x00]\<rparr>, byteLength = 2\<rparr>\<rparr>"

definition obliging_device :: usb_device where
  "obliging_device =
     \<lparr>configuration = Some ch340_interfaces, respond = (\<lambda>history. Resolved (Some two_bytes))\<rparr>"

definition write_rejecting_device :: usb_device where
  "write_rejecting_device =
     \<lparr>configuration = Some ch340_interfaces,
      respond = (\<lambda>history.
        case rev history of
          ControlTransferIn request value index len # earlier \<Rightarrow> Resolved (Some two_bytes)
        | _ \<Rightarrow> Rejected (Some ''A transfer error has occurred.''))\<rparr>"

definition unplugged_device :: usb_device where
  "unplugged_device =
     \<lparr>configuration = Some ch340_interfaces,
      respond = (\<lambda>history. Rejected (Some ''The device was disconnected.''))\<rparr>"

text \<open>A driver with both bulk endpoints assigned, as \<open>open\<close> leaves it on such a device.\<close>

definition opened_driver :: "usb_device \<Rightarrow> world" where
  "opened_driver dev =
     \<lparr>self = (constructor dev 9600)\<lparr>readEndpoint := Some bulk_in, writeEndpoint := Some bulk_out\<rparr>,
      calls = [], dispatched = []\<rparr>"

section \<open>Register writes and the baud rate encoder\<close>

lemma vendorOut_eq:
  "vendorOut request value index w =
     (Inr (), w\<lparr>calls := calls w @ [ControlTransferOut request value index]\<rparr>)"
  by (simp add: vendorOut_def usb_def Let_def split: usb_reply.split)

lemma setBaudRate_eq:
  "setBaudRate b w =
     (case setBaudRate_values b of
        Inl e \<Rightarrow> (Inl e, w)
      | Inr (val1, val2) \<Rightarrow>
          (Inr (), w\<lparr>calls := calls w @ [ControlTransferOut 0x9A 0x1312 val1,
                                           ControlTransferOut 0x9A 0x0F2C val2]\<rparr>))"
  by (simp add: setBaudRate_def await_def throw_def vendorOut_eq split: sum.split prod.split)

lemma setBaudRate_values_9600: "setBaudRate_values 9600 = Inr (0xB282, 0x0C)"
  by code_simp

lemma setBaudRate_iterations_le: "setBaudRate_iterations (factor, divisor) \<le> nat divisor"
  by (induction "(factor, divisor)" arbitrary: factor divisor rule: setBaudRate_iterations.induct)
     (subst setBaudRate_iterations.simps, auto)

lemma setBaudRate_loop_funpow:
  "setBaudRate_loop s = (setBaudRate_body ^^ setBaudRate_iterations s) s"
proof (induction s rule: setBaudRate_loop.induct)
  case (1 factor divisor)
  show ?case
  proof (cases "js_gt factor 0xfff0 \<and> 0 < divisor")
    case True
    then show ?thesis
      using 1 by (subst setBaudRate_loop.simps, subst setBaudRate_iterations.simps)
                 (simp add: funpow_swap1 setBaudRate_body_def)
  next
    case False
    then show ?thesis
      by (subst setBaudRate_loop.simps, subst setBaudRate_iterations.simps) auto
  qed
qed

text \<open>
  C1. The claim: for every positive integer bit rate the register values that
  \<open>setBaudRate\<close> computes are those of the specification's algorithm, which floors the
  quotient \<open>1532620800 / bitrate\<close>. The code divides without flooring. Where the loop
  runs, its shift truncates the quotient; where the quotient is at most \<open>0xFFF0\<close> and
  not an integer, the fraction survives into \<open>0x10000 - factor\<close> and the bitwise
  \<open>&\<close> truncates the difference instead, one below the specified factor. At 250000
  bits per second the quotient is 6130.4832: the code sends \<open>0x0D\<close> to the offset
  register, the specification says \<open>0x0E\<close>.
\<close>

theorem setBaudRate_values_250000_not_spec_encode:
  "setBaudRate_values 250000 = Inr (0xE883, 0x0D) \<and> spec_encode 250000 = Inr (0xE883, 0x0E)"
  by code_simp

text \<open>
  C2. For every bit rate, the loop of the encoder runs at most three times: the result
  of the loop is the loop body iterated \<open>setBaudRate_iterations\<close> times, and that
  count is at most 3. The encoder always ends, either with the exception
  \<open>UnsupportedBaudRate\<close> or with two register values, and it ends with the exception
  exactly when the factor is still above \<open>0xFFF0\<close> after the loop (the bit rate not
  being 921600); a bit rate of 1 is such a case.
\<close>

theorem setBaudRate_loop_at_most_three_iterations:
  "setBaudRate_iterations (js_div 1532620800 (of_int b), 3) \<le> 3
   \<and> setBaudRate_loop (js_div 1532620800 (of_int b), 3)
       = (setBaudRate_body ^^ setBaudRate_iterations (js_div 1532620800 (of_int b), 3))
           (js_div 1532620800 (of_int b), 3)
   \<and> (setBaudRate_values b = Inl (UnsupportedBaudRate b)
        \<or> (\<exists>val1 val2. setBaudRate_values b = Inr (val1, val2)))
   \<and> ((setBaudRate_values b = Inl (UnsupportedBaudRate b))
        = (b \<noteq> 921600 \<and> js_gt (fst (setBaudRate_loop (js_div 1532620800 (of_int b), 3))) 0xfff0))
   \<and> setBaudRate_values 1 = Inl (UnsupportedBaudRate 1)"
proof -
  have a: "setBaudRate_iterations (js_div 1532620800 (of_int b), 3) \<le> 3"
    using setBaudRate_iterations_le [of "js_div 1532620800 (of_int b)" 3] by simp
  have c: "(setBaudRate_values b = Inl (UnsupportedBaudRate b))
        = (b \<noteq> 921600 \<and> js_gt (fst (setBaudRate_loop (js_div 1532620800 (of_int b), 3))) 0xfff0)"
    by (auto simp: setBaudRate_values_def Let_def split: prod.splits)
  have d: "setBaudRate_values b = Inl (UnsupportedBaudRate b)
        \<or> (\<exists>val1 val2. setBaudRate_values b = Inr (val1, val2))"
    by (auto simp: setBaudRate_values_def Let_def split: prod.splits)
  have e: "setBaudRate_values 1 = Inl (UnsupportedBaudRate 1)"
    by code_simp
  show ?thesis using a c d e setBaudRate_loop_funpow by blast
qed

text \<open>
  C3. \<open>setBaudRate\<close> is deterministic and pure in its bit rate: from any two worlds,
  whatever the two driver objects hold and however the two devices answer, it has the same
  outcome (the same exception or none) and makes the same transport calls, carrying the
  same two register values; it leaves the driver object as it was and dispatches no event.
\<close>

theorem setBaudRate_deterministic:
  "fst (setBaudRate b w1) = fst (setBaudRate b w2)
   \<and> issued (setBaudRate b) w1 = issued (setBaudRate b) w2
   \<and> self (snd (setBaudRate b w1)) = self w1
   \<and> fired (setBaudRate b) w1 = []"
  by (simp add: setBaudRate_eq issued_def fired_def split: sum.split prod.split)

section \<open>The control lines\<close>

lemma keeps_ret: "keeps_lines (ret x)"
  by (simp add: keeps_lines_def ret_def)

lemma keeps_throw: "keeps_lines (throw e)"
  by (simp add: keeps_lines_def throw_def)

lemma keeps_usb: "keeps_lines (usb c)"
  by (simp add: keeps_lines_def usb_def Let_def split: usb_reply.split)

lemma keeps_dispatchEvent: "keeps_lines (dispatchEvent e)"
  by (simp add: keeps_lines_def dispatchEvent_def)

lemma keeps_update:
  "(\<And>d. dtr (f d) = dtr d \<and> rts (f d) = rts d) \<Longrightarrow> keeps_lines (update f)"
  by (simp add: keeps_lines_def update_def)

lemma keeps_await:
  assumes "keeps_lines m" and "\<And>x. keeps_lines (k x)"
  shows "keeps_lines (await m k)"
  unfolding keeps_lines_def
proof
  fix w
  show "dtr (self (snd (await m k w))) = dtr (self w) \<and> rts (self (snd (await m k w))) = rts (self w)"
  proof (cases "m w")
    case (Pair r w')
    with assms(1) have w': "dtr (self w') = dtr (self w) \<and> rts (self w') = rts (self w)"
      by (metis keeps_lines_def snd_conv)
    show ?thesis
    proof (cases r)
      case (Inl e)
      with Pair w' show ?thesis by (simp add: await_def)
    next
      case (Inr x)
      with Pair w' assms(2) [of x] show ?thesis by (simp add: await_def keeps_lines_def)
    qed
  qed
qed

lemma keeps_reader: "(\<And>w0. keeps_lines (f w0)) \<Longrightarrow> keeps_lines (\<lambda>w. f w w)"
  by (simp add: keeps_lines_def)

lemma keeps_vendorOut: "keeps_lines (vendorOut request value index)"
  by (simp add: keeps_lines_def vendorOut_eq)

lemma keeps_vendorIn: "keeps_lines (vendorIn request value index len)"
  by (simp add: vendorIn_def keeps_usb)

lemma keeps_setBaudRate: "keeps_lines (setBaudRate b)"
  by (simp add: keeps_lines_def setBaudRate_eq split: sum.split prod.split)

lemma keeps_setControlLines: "keeps_lines setControlLines"
  by (simp add: keeps_lines_def setControlLines_def vendorOut_eq)

lemma keeps_checkState: "keeps_lines (checkState msg request value expected)"
  unfolding checkState_def
  by (intro keeps_await keeps_vendorIn)
     (auto simp: keeps_ret keeps_throw split: option.split usb_status.split)

lemma keeps_init: "keeps_lines init"
  unfolding init_def Let_def
  by (intro keeps_await keeps_checkState keeps_vendorOut keeps_setBaudRate
        keeps_setControlLines keeps_ret)

lemma keeps_close: "keeps_lines close"
  unfolding close_def
  by (intro keeps_await keeps_update keeps_dispatchEvent keeps_usb keeps_ret) simp

lemma keeps_readLoop: "keeps_lines readLoop"
proof -
  have "dtr (self (snd (readLoop w))) = dtr (self w) \<and> rts (self (snd (readLoop w))) = rts (self w)" for w
    using keeps_close by (simp add: readLoop_def keeps_lines_def split: option.split)
  then show ?thesis by (simp add: keeps_lines_def)
qed


lemma claim_eq:
  "claim iface w = (Inr (), w\<lparr>calls := calls w @ [ClaimInterface (interfaceNumber iface)]\<rparr>)"
  by (simp add: claim_def usb_def Let_def split: usb_reply.split)

lemma claim_all_eq:
  "claim_all ifs w =
     (Inr (), w\<lparr>calls := calls w @ map (\<lambda>iface. ClaimInterface (interfaceNumber iface)) ifs\<rparr>)"
  by (induction ifs arbitrary: w) (simp_all add: ret_def await_def claim_eq)

lemma keeps_claim_all: "keeps_lines (claim_all ifs)"
  by (simp add: keeps_lines_def claim_all_eq)

lemma assign_endpoint_lines:
  "dtr (fold assign_endpoint eps d) = dtr d \<and> rts (fold assign_endpoint eps d) = rts d"
  by (induction eps arbitrary: d) (auto simp: assign_endpoint_def split: usb_direction.split)

lemma keeps_open_tail:
  "keeps_lines
     (await (update (fold assign_endpoint eps)) (\<lambda>_.
      await init (\<lambda>_.
      await (\<lambda>w. setBaudRate (bitrate (self w)) w) (\<lambda>_.
      await (update (\<lambda>d. d\<lparr>isClosing := False\<rparr>)) (\<lambda>_.
      await readLoop (\<lambda>_.
      dispatchEvent Ready))))))"
proof -
  have b: "keeps_lines (\<lambda>w. setBaudRate (bitrate (self w)) w)"
    using keeps_setBaudRate by (simp add: keeps_lines_def)
  show ?thesis
    by (intro keeps_await keeps_update keeps_init b keeps_readLoop keeps_dispatchEvent)
       (simp_all add: assign_endpoint_lines)
qed

lemma keeps_open_setup: "keeps_lines open_setup"
proof -
  have "keeps_lines (\<lambda>w. await (claim_all (f w)) (\<lambda>_.
            if f w = [] then throw TypeError
            else
              await (update (fold assign_endpoint (alternate_endpoints (last (f w))))) (\<lambda>_.
              await init (\<lambda>_.
              await (\<lambda>w. setBaudRate (bitrate (self w)) w) (\<lambda>_.
              await (update (\<lambda>d. d\<lparr>isClosing := False\<rparr>)) (\<lambda>_.
              await readLoop (\<lambda>_.
              dispatchEvent Ready)))))) w)" for f
    by (rule keeps_reader, rule keeps_await [OF keeps_claim_all])
       (simp add: keeps_throw keeps_open_tail)
  then show ?thesis
    unfolding open_setup_def Let_def by (intro keeps_await keeps_usb)
qed

lemma keeps_open_port: "keeps_lines open_port"
proof -
  have "dtr (self (snd (open_port w))) = dtr (self w) \<and> rts (self (snd (open_port w))) = rts (self w)" for w
  proof (cases "open_setup w")
    case (Pair r w')
    with keeps_open_setup have "dtr (self w') = dtr (self w) \<and> rts (self w') = rts (self w)"
      by (metis keeps_lines_def snd_conv)
    with Pair show ?thesis
      by (cases r) (simp_all add: open_port_def dispatchEvent_def)
  qed
  then show ?thesis by (simp add: keeps_lines_def)
qed

lemma keeps_write_bytes: "keeps_lines (write_bytes bs)"
proof -
  have "keeps_lines (await (usb c) (\<lambda>_. ret (StatusOk, length bs)))" for c
    by (intro keeps_await keeps_usb keeps_ret)
  then show ?thesis
    by (simp add: keeps_lines_def write_bytes_def throw_def split: option.split)
qed

lemma keeps_readLoop_handler: "keeps_lines (readLoop_handler reply)"
proof -
  have "keeps_lines (await (dispatchEvent Disconnected) (\<lambda>_. update (\<lambda>d. d\<lparr>isClosing := True\<rparr>)))"
    by (intro keeps_await keeps_dispatchEvent keeps_update) simp
  then show ?thesis
    by (simp add: readLoop_handler_def readLoop_then_def readLoop_catch_def
        keeps_ret keeps_throw keeps_dispatchEvent split: usb_reply.split option.split)
qed

lemma keeps_readLoop_finally: "keeps_lines (readLoop_finally opened)"
  using keeps_readLoop by (simp add: keeps_lines_def readLoop_finally_def)

lemma perform_lines:
  "dtr (self (perform a w)) = dtr (self w) \<and> rts (self (perform a w)) = rts (self w)"
proof (cases a)
  case (TransferSettles reply opened)
  then show ?thesis
    using keeps_readLoop_handler [of reply] keeps_readLoop_finally [of opened]
    by (simp add: readLoop_settled_def keeps_lines_def)
qed (use keeps_open_port keeps_close keeps_write_bytes keeps_setControlLines keeps_setBaudRate
       keeps_vendorOut keeps_vendorIn keeps_checkState keeps_init keeps_readLoop
     in \<open>simp_all add: keeps_lines_def\<close>)

lemma fold_perform_lines:
  "dtr (self (fold perform acts w)) = dtr (self w) \<and> rts (self (fold perform acts w)) = rts (self w)"
  by (induction acts arbitrary: w) (simp_all add: perform_lines)

text \<open>
  C10. Whatever a program does with a driver object, in any order and on any device
  (calls of its methods, bulk-in transfers settling), \<open>dtr\<close> and \<open>rts\<close> keep the
  value true the constructor gave them, so \<open>setControlLines\<close> always sends the one
  vendor request, to \<open>REG_MODEM_CTRL\<close>, with the value \<open>~(SCL_DTR | SCL_RTS)\<close>, which is
  \<open>~0x60 = -97\<close>: no method toggles a control line.
\<close>

theorem control_lines_never_change:
  "dtr (self (fold perform acts (new_driver dev baudRate)))
   \<and> rts (self (fold perform acts (new_driver dev baudRate)))
   \<and> issued setControlLines (fold perform acts (new_driver dev baudRate))
       = [ControlTransferOut REG_MODEM_CTRL (NOT (SCL_DTR OR SCL_RTS)) 0]
   \<and> NOT (SCL_DTR OR SCL_RTS) = - 97"
proof -
  have "dtr (self (fold perform acts (new_driver dev baudRate)))
      \<and> rts (self (fold perform acts (new_driver dev baudRate)))"
    by (simp add: fold_perform_lines new_driver_def constructor_def)
  then show ?thesis
    by (simp add: issued_def setControlLines_def vendorOut_eq)
qed

section \<open>Writing\<close>

text \<open>
  C9. With no write endpoint assigned, \<open>write\<close> rejects with \<open>NoWriteEndpoint\<close> and
  leaves the world as it was: no call reaches the transport. With a write endpoint it makes
  exactly one call, a bulk-out transfer of the bytes to that endpoint; when the transfer
  resolves, \<open>write\<close> resolves with status ok and the number of bytes given, and
  when the transfer rejects, \<open>write\<close> rejects with the reason of the transport.
\<close>

theorem write_bytes_outcomes:
  "(writeEndpoint (self w) = None \<longrightarrow> write_bytes bs w = (Inl NoWriteEndpoint, w))
   \<and> (\<forall>ep. writeEndpoint (self w) = Some ep \<longrightarrow>
        issued (write_bytes bs) w = [TransferOut (endpointNumber ep) bs]
        \<and> (\<forall>result. respond (device (self w)) (calls w @ [TransferOut (endpointNumber ep) bs])
                       = Resolved result
              \<longrightarrow> fst (write_bytes bs w) = Inr (StatusOk, length bs))
        \<and> (\<forall>reason. respond (device (self w)) (calls w @ [TransferOut (endpointNumber ep) bs])
                       = Rejected reason
              \<longrightarrow> fst (write_bytes bs w) = Inl (Rejection reason)))"
  by (simp add: write_bytes_def throw_def await_def ret_def usb_def issued_def Let_def
      split: usb_reply.split)

text \<open>
  The three cases at work: a driver that was never opened, an opened driver on a device
  that resolves, and one on a device that rejects.
\<close>

theorem write_bytes_examples:
  "write_bytes [0x41, 0x42] (new_driver obliging_device 9600)
     = (Inl NoWriteEndpoint, new_driver obliging_device 9600)
   \<and> issued (write_bytes [0x41, 0x42]) (opened_driver obliging_device) = [TransferOut 2 [0x41, 0x42]]
   \<and> fst (write_bytes [0x41, 0x42] (opened_driver obliging_device)) = Inr (StatusOk, 2)
   \<and> issued (write_bytes [0x41, 0x42]) (opened_driver unplugged_device) = [TransferOut 2 [0x41, 0x42]]
   \<and> fst (write_bytes [0x41, 0x42] (opened_driver unplugged_device))
       = Inl (Rejection (Some ''The device was disconnected.''))"
  using write_bytes_outcomes [of "new_driver obliging_device 9600" "[0x41, 0x42]"]
    write_bytes_outcomes [of "opened_driver obliging_device" "[0x41, 0x42]"]
    write_bytes_outcomes [of "opened_driver unplugged_device" "[0x41, 0x42]"]
  by (simp add: new_driver_def opened_driver_def constructor_def obliging_device_def
      unplugged_device_def bulk_out_def)

section \<open>The read loop\<close>

lemma indexOf_no_device: "indexOf ''LIBUSB_TRANSFER_NO_DEVICE'' ''LIBUSB_TRANSFER_NO_DEVICE'' = 0"
  by (simp add: indexOf_def)

lemma indexOf_timed_out: "indexOf ''LIBUSB_TRANSFER_TIMED_OUT'' ''LIBUSB_TRANSFER_NO_DEVICE'' = - 1"
  by (simp add: indexOf_def)

text \<open>
  C7. The claim: a failed bulk-in transfer makes the loop dispatch \<open>disconnected\<close> and
  set \<open>isClosing\<close> exactly when the error says that the device is gone
  (\<open>LIBUSB_TRANSFER_NO_DEVICE\<close>); any other failure is logged and the loop goes on. The
  handler tests the number that \<open>indexOf\<close> returns as a truth value: \<open>0\<close>, the marker
  at the start of the message, counts as false, and \<open>-1\<close>, no marker at all, as true.
  So on an opened driver a removal error changes nothing and the loop submits its next
  transfer, while a timeout dispatches \<open>disconnected\<close>, sets \<open>isClosing\<close> and ends
  the loop.
\<close>

theorem readLoop_catch_takes_removal_for_other_errors:
  "readLoop_settled (Rejected (Some ''LIBUSB_TRANSFER_NO_DEVICE'')) True (opened_driver dev)
     = (opened_driver dev)\<lparr>calls := [TransferIn 2 32]\<rparr>
   \<and> readLoop_settled (Rejected (Some ''LIBUSB_TRANSFER_TIMED_OUT'')) True (opened_driver dev)
     = (opened_driver dev)
         \<lparr>self := (self (opened_driver dev))\<lparr>isClosing := True\<rparr>, dispatched := [Disconnected]\<rparr>"
  by (simp add: readLoop_settled_def readLoop_handler_def readLoop_catch_def readLoop_finally_def
      readLoop_def indexOf_no_device indexOf_timed_out ret_def await_def dispatchEvent_def
      update_def opened_driver_def constructor_def bulk_in_def)

lemma readLoop_handler_frame:
  "calls (snd (readLoop_handler reply w)) = calls w
   \<and> readEndpoint (self (snd (readLoop_handler reply w))) = readEndpoint (self w)
   \<and> (isClosing (self w) \<longrightarrow> isClosing (self (snd (readLoop_handler reply w))))"
  by (simp add: readLoop_handler_def readLoop_then_def readLoop_catch_def ret_def throw_def
      await_def dispatchEvent_def update_def split: usb_reply.split option.split)

lemma readLoop_settled_closing:
  "isClosing (self w) \<Longrightarrow>
     calls (readLoop_settled reply opened w) = calls w
     \<and> isClosing (self (readLoop_settled reply opened w))"
  using readLoop_handler_frame [of reply w]
  by (simp add: readLoop_settled_def readLoop_finally_def)

lemma settle_all_closing:
  "isClosing (self w) \<Longrightarrow>
     calls (settle_all outcomes w) = calls w \<and> isClosing (self (settle_all outcomes w))"
proof (induction outcomes arbitrary: w)
  case Nil
  then show ?case by (simp add: settle_all_def)
next
  case (Cons outcome outcomes)
  obtain reply opened where o: "outcome = (reply, opened)" by (cases outcome)
  have "settle_all (outcome # outcomes) w = settle_all outcomes (readLoop_settled reply opened w)"
    by (simp add: settle_all_def o)
  with Cons.IH [of "readLoop_settled reply opened w"] readLoop_settled_closing [OF Cons.prems, of reply opened]
  show ?case by simp
qed

text \<open>
  C8. When a bulk-in transfer of the loop settles, resolved or rejected, the loop
  submits the next transfer exactly when, after the handler has run, \<open>isClosing\<close>
  is false and the device is open; it makes no other call. Once \<open>isClosing\<close> is
  true it stays true and the loop makes no call ever again, however many transfers
  settle and whatever their outcomes.
\<close>

theorem readLoop_resubmits_iff_open_and_not_closing:
  "(\<forall>ep. readEndpoint (self w) = Some ep \<longrightarrow>
      calls (readLoop_settled reply opened w)
        = calls w @ (if \<not> isClosing (self (snd (readLoop_handler reply w))) \<and> opened
                     then [TransferIn (endpointNumber ep) (packetSize ep)] else []))
   \<and> (isClosing (self w) \<longrightarrow>
        calls (settle_all outcomes w) = calls w \<and> isClosing (self (settle_all outcomes w)))"
proof -
  have "calls (readLoop_settled reply opened w)
        = calls w @ (if \<not> isClosing (self (snd (readLoop_handler reply w))) \<and> opened
                     then [TransferIn (endpointNumber ep) (packetSize ep)] else [])"
    if "readEndpoint (self w) = Some ep" for ep
    using that readLoop_handler_frame [of reply w]
    by (simp add: readLoop_settled_def readLoop_finally_def readLoop_def)
  then show ?thesis using settle_all_closing by blast
qed

text \<open>
  On an opened driver: a resolved transfer with the device open is followed by the next
  transfer; with the device closed, or after a handler that set \<open>isClosing\<close>, by
  none; and after \<open>close\<close> the loop adds nothing to the two calls of \<open>close\<close>.
\<close>

theorem readLoop_resubmits_examples:
  "calls (readLoop_settled (Resolved (Some two_bytes)) True (opened_driver obliging_device))
     = [TransferIn 2 32]
   \<and> calls (readLoop_settled (Resolved (Some two_bytes)) False (opened_driver obliging_device)) = []
   \<and> calls (readLoop_settled (Rejected (Some ''LIBUSB_TRANSFER_TIMED_OUT'')) True
        (opened_driver obliging_device)) = []
   \<and> calls (settle_all [(Resolved (Some two_bytes), True), (Rejected None, True)]
        (snd (close (opened_driver obliging_device))))
       = [ReleaseInterface 0, DeviceClose]"
proof -
  have c: "isClosing (self (snd (close (opened_driver obliging_device))))"
    and d: "calls (snd (close (opened_driver obliging_device))) = [ReleaseInterface 0, DeviceClose]"
    by (simp_all add: close_def await_def update_def dispatchEvent_def usb_def ret_def Let_def
        opened_driver_def constructor_def obliging_device_def)
  have e: "readEndpoint (self (opened_driver obliging_device)) = Some bulk_in"
    by (simp add: opened_driver_def)
  show ?thesis
    using readLoop_resubmits_iff_open_and_not_closing
            [of "opened_driver obliging_device" "Resolved (Some two_bytes)" True "[]"]
          readLoop_resubmits_iff_open_and_not_closing
            [of "opened_driver obliging_device" "Resolved (Some two_bytes)" False "[]"]
          readLoop_resubmits_iff_open_and_not_closing
            [of "opened_driver obliging_device" "Rejected (Some ''LIBUSB_TRANSFER_TIMED_OUT'')" True "[]"]
          readLoop_resubmits_iff_open_and_not_closing
            [of "snd (close (opened_driver obliging_device))" "Resolved None" True
                "[(Resolved (Some two_bytes), True), (Rejected None, True)]"]
          c d e
    by (simp add: readLoop_handler_def readLoop_then_def readLoop_catch_def indexOf_timed_out
        two_bytes_def dispatchEvent_def await_def update_def bulk_in_def)
       (simp add: opened_driver_def constructor_def)
qed

section \<open>Initialization\<close>

lemma checkState_world:
  "snd (checkState msg request value expected w)
     = w\<lparr>calls := calls w @ [ControlTransferIn request value 0 (length (bytes expected))]\<rparr>"
  by (simp add: checkState_def vendorIn_def await_def usb_def ret_def throw_def Let_def
      split: usb_reply.split option.split usb_status.split)

lemma await_checkState:
  "await (checkState msg request value expected) k w =
     (case fst (checkState msg request value expected w) of
        Inl e \<Rightarrow> (Inl e, w\<lparr>calls := calls w @ [ControlTransferIn request value 0 (length (bytes expected))]\<rparr>)
      | Inr b \<Rightarrow> k b (w\<lparr>calls := calls w @ [ControlTransferIn request value 0 (length (bytes expected))]\<rparr>))"
proof (cases "checkState msg request value expected w")
  case (Pair r w')
  with checkState_world [of msg request "value" expected w]
  show ?thesis by (simp add: await_def split: sum.split)
qed

lemma await_vendorOut:
  "await (vendorOut request value index) k w
     = k () (w\<lparr>calls := calls w @ [ControlTransferOut request value index]\<rparr>)"
  by (simp add: await_def vendorOut_eq)

lemma await_setBaudRate_9600:
  "await (setBaudRate 9600) k w
     = k () (w\<lparr>calls := calls w @ [ControlTransferOut 0x9A 0x1312 0xB282,
                                     ControlTransferOut 0x9A 0x0F2C 0x0C]\<rparr>)"
  by (simp add: await_def setBaudRate_eq setBaudRate_values_9600)

lemma await_setControlLines:
  "await setControlLines k w
     = k () (w\<lparr>calls := calls w @
          [ControlTransferOut 0xA4
             (NOT ((if dtr (self w) then 0x20 else 0) OR (if rts (self w) then 0x40 else 0))) 0]\<rparr>)"
  by (simp add: await_def setControlLines_def vendorOut_eq)

lemma init_cases:
  "init w = (Inr (), w\<lparr>calls := calls w @ spec_init_sequence (dtr (self w)) (rts (self w))\<rparr>)
   \<or> (\<exists>e. init w = (Inl e, w\<lparr>calls := calls w @ take 1 (spec_init_sequence (dtr (self w)) (rts (self w)))\<rparr>))
   \<or> (\<exists>e. init w = (Inl e, w\<lparr>calls := calls w @ take 5 (spec_init_sequence (dtr (self w)) (rts (self w)))\<rparr>))
   \<or> (\<exists>e. init w = (Inl e, w\<lparr>calls := calls w @ take 7 (spec_init_sequence (dtr (self w)) (rts (self w)))\<rparr>))
   \<or> (\<exists>e. init w = (Inl e, w\<lparr>calls := calls w @ spec_init_sequence (dtr (self w)) (rts (self w))\<rparr>))"
  by (simp add: init_def Let_def await_checkState await_vendorOut await_setBaudRate_9600
      await_setControlLines ret_def new_Uint8Array_def spec_init_sequence_def
      split: sum.split)


lemma init_returns:
  assumes "\<forall>history request value index len. \<exists>result.
             respond (device (self w)) (history @ [ControlTransferIn request value index len])
               = Resolved (Some result)"
  shows "init w = (Inr (), w\<lparr>calls := calls w @ spec_init_sequence (dtr (self w)) (rts (self w))\<rparr>)"
proof -
  have r: "\<exists>b. fst (checkState msg request value expected w') = Inr b"
    if "device (self w') = device (self w)" for msg request "value" expected w'
  proof -
    from assms that obtain result where
      "respond (device (self w'))
         (calls w' @ [ControlTransferIn request value 0 (length (bytes expected))]) = Resolved (Some result)"
      by metis
    then show ?thesis
      by (auto simp: checkState_def vendorIn_def await_def usb_def ret_def Let_def
          split: option.split usb_status.split)
  qed
  have aw: "await (checkState msg request value expected) (\<lambda>_. k) w'
              = k (w'\<lparr>calls := calls w' @ [ControlTransferIn request value 0 (length (bytes expected))]\<rparr>)"
    if "device (self w') = device (self w)" for msg request "value" expected k w'
    using r [OF that, of msg request "value" expected] by (auto simp: await_checkState)
  show ?thesis
    by (simp add: init_def Let_def aw await_vendorOut await_setBaudRate_9600
      await_setControlLines ret_def new_Uint8Array_def spec_init_sequence_def)
qed

lemma spec_encode_9600: "spec_encode 9600 = Inr (0xB282, 0x0C)"
  by code_simp

text \<open>
  C5. \<open>init\<close> performs the ten steps of section 4.3 of the specification, one after
  the other and in that order (the source awaits every call, so each has settled before
  the next is made), as twelve transport calls (each of the two baud rate
  steps is two register writes, carrying the encoding of 9600): the calls that \<open>init\<close>
  makes are always an initial part of that sequence; they are the whole sequence whenever
  \<open>init\<close> returns; and \<open>init\<close> returns on every device whose control-in reads
  resolve with a result, whether its register writes succeed or fail (a failed write is
  caught and logged). It ends early only when a read of the transport itself fails.
  \<open>init\<close> changes nothing in the driver object and dispatches no event.
\<close>

theorem init_performs_the_ten_steps:
  "prefix (issued init w) (spec_init_sequence (dtr (self w)) (rts (self w)))
   \<and> (fst (init w) = Inr () \<longrightarrow> issued init w = spec_init_sequence (dtr (self w)) (rts (self w)))
   \<and> ((\<forall>history request value index len. \<exists>result.
          respond (device (self w)) (history @ [ControlTransferIn request value index len])
            = Resolved (Some result))
        \<longrightarrow> fst (init w) = Inr ())
   \<and> self (snd (init w)) = self w
   \<and> fired init w = []
   \<and> spec_encode 9600 = Inr (0xB282, 0x0C)"
proof -
  have a: "prefix (issued init w) (spec_init_sequence (dtr (self w)) (rts (self w)))"
    using init_cases [of w] by (auto simp: issued_def take_is_prefix)
  have b: "fst (init w) = Inr () \<longrightarrow> issued init w = spec_init_sequence (dtr (self w)) (rts (self w))"
    using init_cases [of w] by (auto simp: issued_def)
  have c: "(\<forall>history request value index len. \<exists>result.
          respond (device (self w)) (history @ [ControlTransferIn request value index len])
            = Resolved (Some result))
        \<longrightarrow> fst (init w) = Inr ()"
    using init_returns [of w] by simp
  have d: "self (snd (init w)) = self w \<and> fired init w = []"
    using init_cases [of w] by (auto simp: fired_def)
  show ?thesis using a b c d spec_encode_9600 by blast
qed

text \<open>
  With both control lines up: on a device that resolves every transfer, and on one that
  rejects every register write and answers the reads. \<open>init\<close> returns on both, after
  the same twelve calls.
\<close>

theorem init_on_example_devices:
  "fst (init (new_driver obliging_device 9600)) = Inr ()
   \<and> issued init (new_driver obliging_device 9600)
       = [ControlTransferIn 0x5F 0 0 2,
          ControlTransferOut 0xA1 0 0,
          ControlTransferOut 0x9A 0x1312 0xB282,
          ControlTransferOut 0x9A 0x0F2C 0x0C,
          ControlTransferIn 0x95 0x2518 0 2,
          ControlTransferOut 0x9A 0x2518 0xC3,
          ControlTransferIn 0x95 0x0706 0 2,
          ControlTransferOut 0xA1 0x501F 0xD90A,
          ControlTransferOut 0x9A 0x1312 0xB282,
          ControlTransferOut 0x9A 0x0F2C 0x0C,
          ControlTransferOut 0xA4 (- 97) 0,
          ControlTransferIn 0x95 0x0706 0 2]
   \<and> respond write_rejecting_device [ControlTransferIn 0x5F 0 0 2, ControlTransferOut 0xA1 0 0]
       = Rejected (Some ''A transfer error has occurred.'')
   \<and> fst (init (new_driver write_rejecting_device 9600)) = Inr ()
   \<and> issued init (new_driver write_rejecting_device 9600)
       = issued init (new_driver obliging_device 9600)"
proof -
  have h: "\<forall>history request value index len. \<exists>result.
      respond (device (self (new_driver obliging_device 9600)))
        (history @ [ControlTransferIn request value index len]) = Resolved (Some result)"
    by (simp add: new_driver_def constructor_def obliging_device_def)
  have l: "dtr (self (new_driver obliging_device 9600)) \<and> rts (self (new_driver obliging_device 9600))"
    by (simp add: new_driver_def constructor_def)
  have h': "\<forall>history request value index len. \<exists>result.
      respond (device (self (new_driver write_rejecting_device 9600)))
        (history @ [ControlTransferIn request value index len]) = Resolved (Some result)"
    by (simp add: new_driver_def constructor_def write_rejecting_device_def)
  have l': "dtr (self (new_driver write_rejecting_device 9600))
            \<and> rts (self (new_driver write_rejecting_device 9600))"
    by (simp add: new_driver_def constructor_def)
  have r: "respond write_rejecting_device [ControlTransferIn 0x5F 0 0 2, ControlTransferOut 0xA1 0 0]
       = Rejected (Some ''A transfer error has occurred.'')"
    by (simp add: write_rejecting_device_def)
  from init_performs_the_ten_steps [of "new_driver obliging_device 9600"] h l
  have 1: "fst (init (new_driver obliging_device 9600)) = Inr ()"
    and 2: "issued init (new_driver obliging_device 9600) = spec_init_sequence True True"
    by simp_all
  from init_performs_the_ten_steps [of "new_driver write_rejecting_device 9600"] h' l'
  have 3: "fst (init (new_driver write_rejecting_device 9600)) = Inr ()"
    and 4: "issued init (new_driver write_rejecting_device 9600) = spec_init_sequence True True"
    by simp_all
  show ?thesis
    using 1 2 3 4 r by (simp add: spec_init_sequence_def)
qed


text \<open>
  C4. The claim: \<open>checkState\<close> compares only the length of the reply, returns a
  boolean and never throws, and \<open>init\<close> always goes on to its next step. On a device
  that rejects its transfers \<open>checkState\<close> throws the reason of the transport, and
  \<open>init\<close> ends after its first call; and on a device that answers with two bytes,
  the length expected, \<open>checkState\<close> still returns false.
\<close>

theorem checkState_throws_and_reports_a_reply_of_the_expected_length:
  "fst (checkState ''init 1'' 0x5F 0 (new_Uint8Array 243 [- 1, 0x00])
          (new_driver unplugged_device 9600))
     = Inl (Rejection (Some ''The device was disconnected.''))
   \<and> init (new_driver unplugged_device 9600)
       = (Inl (Rejection (Some ''The device was disconnected.'')),
          (new_driver unplugged_device 9600)\<lparr>calls := [ControlTransferIn 0x5F 0 0 2]\<rparr>)
   \<and> fst (checkState ''init 1'' 0x5F 0 (new_Uint8Array 243 [- 1, 0x00])
            (new_driver obliging_device 9600))
       = Inr False"
  by (simp add: init_def Let_def await_checkState new_Uint8Array_def)
     (simp add: checkState_def vendorIn_def await_def usb_def ret_def throw_def Let_def
        new_driver_def constructor_def unplugged_device_def obliging_device_def two_bytes_def
        new_Uint8Array_def)

text \<open>
  C4, amended. \<open>checkState\<close> makes one call, a vendor control-in transfer asking for
  \<open>expected.byteLength\<close> bytes, and changes nothing else. When the transfer rejects,
  \<open>checkState\<close> throws the reason. When it resolves with a result, \<open>checkState\<close>
  returns a boolean: false whenever the status is not ok, the data is missing or its
  length is not \<open>expected.byteLength\<close>, and the same boolean for any two results that
  differ only in the bytes of the reply. \<open>init\<close> does not look at the boolean: on
  every device whose control-in reads resolve with a result, whatever the results are
  and whatever becomes of the register writes, it performs its whole sequence and returns.
\<close>

theorem checkState_is_advisory:
  "issued (checkState msg request value expected) w
     = [ControlTransferIn request value 0 (length (bytes expected))]
   \<and> self (snd (checkState msg request value expected w)) = self w
   \<and> fired (checkState msg request value expected) w = []
   \<and> (\<forall>reason.
         respond (device (self w))
           (calls w @ [ControlTransferIn request value 0 (length (bytes expected))]) = Rejected reason
         \<longrightarrow> fst (checkState msg request value expected w) = Inl (Rejection reason))
   \<and> (\<forall>r.
         respond (device (self w))
           (calls w @ [ControlTransferIn request value 0 (length (bytes expected))]) = Resolved (Some r)
         \<longrightarrow> (\<exists>b. fst (checkState msg request value expected w) = Inr b)
             \<and> ((\<forall>d. data r = Some d \<longrightarrow> status r \<noteq> StatusOk \<or> byteLength d \<noteq> length (bytes expected))
                  \<longrightarrow> fst (checkState msg request value expected w) = Inr False)
             \<and> (\<forall>w' r'.
                   respond (device (self w'))
                     (calls w' @ [ControlTransferIn request value 0 (length (bytes expected))])
                     = Resolved (Some r')
                   \<and> forget_bytes r' = forget_bytes r
                   \<longrightarrow> fst (checkState msg request value expected w')
                        = fst (checkState msg request value expected w)))
   \<and> ((\<forall>history request value index len. \<exists>result.
          respond (device (self w)) (history @ [ControlTransferIn request value index len])
            = Resolved (Some result))
        \<longrightarrow> init w = (Inr (), w\<lparr>calls := calls w @ spec_init_sequence (dtr (self w)) (rts (self w))\<rparr>))"
proof -
  have a: "issued (checkState msg request value expected) w
            = [ControlTransferIn request value 0 (length (bytes expected))]
         \<and> self (snd (checkState msg request value expected w)) = self w
         \<and> fired (checkState msg request value expected) w = []"
    by (simp add: issued_def fired_def checkState_world)
  have b: "fst (checkState msg request value expected w) = Inl (Rejection reason)"
    if "respond (device (self w))
           (calls w @ [ControlTransferIn request value 0 (length (bytes expected))]) = Rejected reason"
    for reason
    using that by (simp add: checkState_def vendorIn_def await_def usb_def Let_def)
  have c: "fst (checkState msg request value expected w0)
            = Inr (case (status r0, data r0) of
                     (StatusOk, Some d) \<Rightarrow>
                       byteLength d = length (bytes expected) \<and> ref (buffer d) = ref expected
                   | _ \<Rightarrow> False)"
    if "respond (device (self w0))
           (calls w0 @ [ControlTransferIn request value 0 (length (bytes expected))]) = Resolved (Some r0)"
    for w0 r0
    using that
    by (simp add: checkState_def vendorIn_def await_def usb_def ret_def Let_def
        split: option.split usb_status.split)
  have d: "(\<exists>b. fst (checkState msg request value expected w) = Inr b)
             \<and> ((\<forall>d. data r = Some d \<longrightarrow> status r \<noteq> StatusOk \<or> byteLength d \<noteq> length (bytes expected))
                  \<longrightarrow> fst (checkState msg request value expected w) = Inr False)
             \<and> (\<forall>w' r'.
                   respond (device (self w'))
                     (calls w' @ [ControlTransferIn request value 0 (length (bytes expected))])
                     = Resolved (Some r')
                   \<and> forget_bytes r' = forget_bytes r
                   \<longrightarrow> fst (checkState msg request value expected w')
                        = fst (checkState msg request value expected w))"
    if h: "respond (device (self w))
           (calls w @ [ControlTransferIn request value 0 (length (bytes expected))]) = Resolved (Some r)"
    for r
  proof (intro conjI allI impI)
    show "\<exists>b. fst (checkState msg request value expected w) = Inr b"
      using c [OF h] by simp
    show "fst (checkState msg request value expected w) = Inr False"
      if "\<forall>d. data r = Some d \<longrightarrow> status r \<noteq> StatusOk \<or> byteLength d \<noteq> length (bytes expected)"
      using that c [OF h] by (auto split: option.split usb_status.split)
    show "fst (checkState msg request value expected w') = fst (checkState msg request value expected w)"
      if "respond (device (self w'))
            (calls w' @ [ControlTransferIn request value 0 (length (bytes expected))])
            = Resolved (Some r') \<and> forget_bytes r' = forget_bytes r" for w' r'
    proof -
      from that have "status r' = status r"
        and "map_option (\<lambda>d. (byteLength d, ref (buffer d))) (data r')
             = map_option (\<lambda>d. (byteLength d, ref (buffer d))) (data r)"
        by (simp_all add: forget_bytes_def)
      then show ?thesis
        using that c [OF h] c [of w' r']
        by (cases "data r"; cases "data r'") (auto split: usb_status.split)
    qed
  qed
  show ?thesis using a b d init_returns [of w] by blast
qed

text \<open>
  The cases at work: a rejected transfer, a reply shorter than expected, an \<open>init\<close>
  whose four checks all return false, the same on a device that rejects every register
  write, and two replies that differ in their bytes only.
\<close>

theorem checkState_on_example_devices:
  "issued (checkState ''init 1'' 0x5F 0 (new_Uint8Array 243 [- 1, 0x00]))
       (new_driver obliging_device 9600) = [ControlTransferIn 0x5F 0 0 2]
   \<and> fst (checkState ''init 1'' 0x5F 0 (new_Uint8Array 243 [- 1, 0x00])
            (new_driver unplugged_device 9600))
       = Inl (Rejection (Some ''The device was disconnected.''))
   \<and> (\<exists>b. fst (checkState ''init 1'' 0x5F 0 (new_Uint8Array 243 [- 1, 0x00, 0x00])
                 (new_driver obliging_device 9600)) = Inr b)
   \<and> fst (checkState ''init 1'' 0x5F 0 (new_Uint8Array 243 [- 1, 0x00, 0x00])
            (new_driver obliging_device 9600)) = Inr False
   \<and> fst (init (new_driver obliging_device 9600)) = Inr ()
   \<and> fst (init (new_driver write_rejecting_device 9600)) = Inr ()
   \<and> fst (checkState ''init 1'' 0x5F 0 (new_Uint8Array 243 [- 1, 0x00])
            (new_driver (obliging_device\<lparr>respond := (\<lambda>history. Resolved (Some other_two_bytes))\<rparr>) 9600))
       = fst (checkState ''init 1'' 0x5F 0 (new_Uint8Array 243 [- 1, 0x00])
               (new_driver obliging_device 9600))"
proof -
  have u: "respond (device (self (new_driver unplugged_device 9600))) history
             = Rejected (Some ''The device was disconnected.'')" for history
    by (simp add: new_driver_def constructor_def unplugged_device_def)
  have o: "respond (device (self (new_driver obliging_device 9600))) history
             = Resolved (Some two_bytes)" for history
    by (simp add: new_driver_def constructor_def obliging_device_def)
  have l: "\<forall>d. data two_bytes = Some d \<longrightarrow>
             status two_bytes \<noteq> StatusOk \<or> byteLength d \<noteq> length (bytes (new_Uint8Array 243 [- 1, 0x00, 0x00]))"
    by (simp add: two_bytes_def new_Uint8Array_def)
  have h: "\<forall>history request value index len. \<exists>result.
      respond (device (self (new_driver obliging_device 9600)))
        (history @ [ControlTransferIn request value index len]) = Resolved (Some result)"
    using o by blast
  have h': "\<forall>history request value index len. \<exists>result.
      respond (device (self (new_driver write_rejecting_device 9600)))
        (history @ [ControlTransferIn request value index len]) = Resolved (Some result)"
    by (simp add: new_driver_def constructor_def write_rejecting_device_def)
  from checkState_is_advisory
         [of "''init 1''" "0x5F" 0 "new_Uint8Array 243 [- 1, 0x00]" "new_driver obliging_device 9600"]
  have 1: "issued (checkState ''init 1'' 0x5F 0 (new_Uint8Array 243 [- 1, 0x00]))
       (new_driver obliging_device 9600) = [ControlTransferIn 0x5F 0 0 2]"
    by (simp add: new_Uint8Array_def)
  from checkState_is_advisory
         [of "''init 1''" "0x5F" 0 "new_Uint8Array 243 [- 1, 0x00]" "new_driver unplugged_device 9600"] u
  have 2: "fst (checkState ''init 1'' 0x5F 0 (new_Uint8Array 243 [- 1, 0x00])
            (new_driver unplugged_device 9600))
       = Inl (Rejection (Some ''The device was disconnected.''))"
    by blast
  from checkState_is_advisory
         [of "''init 1''" "0x5F" 0 "new_Uint8Array 243 [- 1, 0x00, 0x00]" "new_driver obliging_device 9600"] o l
  have 3: "(\<exists>b. fst (checkState ''init 1'' 0x5F 0 (new_Uint8Array 243 [- 1, 0x00, 0x00])
                 (new_driver obliging_device 9600)) = Inr b)
         \<and> fst (checkState ''init 1'' 0x5F 0 (new_Uint8Array 243 [- 1, 0x00, 0x00])
            (new_driver obliging_device 9600)) = Inr False"
    by blast
  from checkState_is_advisory
         [of "''init 1''" "0x5F" 0 "new_Uint8Array 243 [- 1, 0x00]" "new_driver obliging_device 9600"] h
  have 4: "fst (init (new_driver obliging_device 9600)) = Inr ()"
    by simp
  from checkState_is_advisory
         [of "''init 1''" "0x5F" 0 "new_Uint8Array 243 [- 1, 0x00]" "new_driver write_rejecting_device 9600"] h'
  have 6: "fst (init (new_driver write_rejecting_device 9600)) = Inr ()"
    by simp
  have f: "respond (device (self (new_driver
              (obliging_device\<lparr>respond := (\<lambda>history. Resolved (Some other_two_bytes))\<rparr>) 9600))) history
             = Resolved (Some other_two_bytes)
           \<and> forget_bytes other_two_bytes = forget_bytes two_bytes" for history
    by (simp add: new_driver_def constructor_def forget_bytes_def two_bytes_def other_two_bytes_def)
  from checkState_is_advisory
         [of "''init 1''" "0x5F" 0 "new_Uint8Array 243 [- 1, 0x00]" "new_driver obliging_device 9600"] o f
  have 5: "fst (checkState ''init 1'' 0x5F 0 (new_Uint8Array 243 [- 1, 0x00])
            (new_driver (obliging_device\<lparr>respond := (\<lambda>history. Resolved (Some other_two_bytes))\<rparr>) 9600))
       = fst (checkState ''init 1'' 0x5F 0 (new_Uint8Array 243 [- 1, 0x00])
               (new_driver obliging_device 9600))"
    by blast
  show ?thesis using 1 2 3 4 5 6 by blast
qed

section \<open>Opening\<close>
























section \<open>The encoder where the quotient is exact\<close>

text \<open>
  An integer below \<open>2 ^ 53\<close> is a binary64 value, so rounding leaves it as it is; and
  on integers below \<open>2 ^ 31\<close> the shift of the code is the shift of the specification.
\<close>

lemma round_half_even_of_int: "round_half_even (of_int n) = n"
  by (simp add: round_half_even_def)

lemma bitlen_pos: "0 < k \<Longrightarrow> 1 \<le> bitlen k"
  using bitlen_nonneg [of k] bitlen_eq_zero_iff [of k] by linarith

lemma bitlen_one: "bitlen 1 = 1"
  by (simp add: bitlen_alt_def)

lemma binade_of_int:
  assumes "0 < k"
  shows "binade (of_int k) = bitlen k - 1"
proof -
  have "(2::int) ^ nat (bitlen k - 1) \<le> k"
    using bitlen_bounds [OF assms] by simp
  then have "of_int ((2::int) ^ nat (bitlen k - 1)) \<le> (of_int k :: rat)"
    by (simp only: of_int_le_iff)
  then have "(2::rat) powi (bitlen k - 1) \<le> of_int k"
    using bitlen_pos [OF assms] by (simp add: power_int_def)
  then show ?thesis
    by (simp add: binade_def quotient_of_int Let_def bitlen_one)
qed

lemma bitlen_le_53:
  assumes "0 < k" and "k < 2 ^ 53"
  shows "bitlen k \<le> 53"
proof -
  have "(2::int) ^ nat (bitlen k - 1) < 2 ^ 53"
    using bitlen_bounds [OF assms(1)] assms(2) by linarith
  then have "nat (bitlen k - 1) < 53"
    by (rule power_less_imp_less_exp [rotated]) simp
  then show ?thesis by linarith
qed

lemma round_double_of_int:
  assumes "0 < k" and "k < 2 ^ 53"
  shows "round_double (of_int k) = of_int k"
proof -
  define m where "m = nat (53 - bitlen k)"
  have e: "binade (of_int k) - 52 = - int m"
    using assms binade_of_int [of k] bitlen_le_53 [OF assms] by (simp add: m_def)
  have q: "(of_int k :: rat) / 2 powi (- int m) = of_int (k * 2 ^ m)"
    using assms by (simp add: power_int_minus field_simps)
  have "round_double (of_int k) = of_int (k * 2 ^ m) * 2 powi (- int m)"
    using assms(1) by (simp add: round_double_def Let_def e q round_half_even_of_int del: of_int_mult)
  also have "\<dots> = of_int k"
    by (simp add: power_int_minus field_simps)
  finally show ?thesis .
qed


lemma ToInt32_of_int: "0 \<le> k \<Longrightarrow> k < 2 ^ 31 \<Longrightarrow> ToInt32 (Num (of_int k)) = k"
  by (simp add: Let_def)

lemma js_shr_of_int:
  "0 \<le> k \<Longrightarrow> k < 2 ^ 31 \<Longrightarrow> js_shr (Num (of_int k)) 3 = Num (of_int (drop_bit 3 k))"
  by (simp add: js_shr_def ToInt32_of_int del: ToInt32.simps)

lemma setBaudRate_loop_of_int:
  "0 \<le> k \<Longrightarrow> k < 2 ^ 31 \<Longrightarrow>
     setBaudRate_loop (Num (of_int k), d)
       = (Num (of_int (fst (spec_loop (k, d)))), snd (spec_loop (k, d)))
     \<and> 0 \<le> fst (spec_loop (k, d))"
proof (induction "(k, d)" arbitrary: k d rule: spec_loop.induct)
  case (1 factor0 divisor)
  show ?case
  proof (cases "0xFFF0 < factor0 \<and> 0 < divisor")
    case True
    have r: "0 \<le> drop_bit 3 factor0 \<and> drop_bit 3 factor0 < 2 ^ 31"
      using "1.prems" by (simp add: drop_bit_eq_div) linarith
    with True "1.hyps" [of ] "1.prems" show ?thesis
      by (subst setBaudRate_loop.simps, subst (1 2 3) spec_loop.simps)
         (simp add: js_shr_of_int)
  next
    case False
    with "1.prems" show ?thesis
      by (subst setBaudRate_loop.simps, subst (1 2 3) spec_loop.simps) auto
  qed
qed


lemma js_div_exact:
  assumes "0 < b" and "b dvd 1532620800"
  shows "js_div 1532620800 (of_int b) = Num (of_int (1532620800 div b))"
    and "0 < 1532620800 div b" and "1532620800 div b < 2 ^ 31"
proof -
  from assms obtain k where k: "1532620800 = b * k" by (auto simp: dvd_def)
  with assms(1) have kpos: "0 < k"
    by (smt (verit) zero_less_mult_pos)
  have "(b * k) div b = k"
    using assms(1) by simp
  then have d: "1532620800 div b = k"
    by (simp only: k)
  have "k \<le> b * k"
    using assms(1) kpos by (simp add: mult_le_cancel_right1)
  with k have kle: "k \<le> 1532620800" by simp
  show "0 < 1532620800 div b" using d kpos by simp
  show "1532620800 div b < 2 ^ 31" using d kle by simp
  have "(1532620800 :: rat) = of_int b * of_int k"
    using k by (metis of_int_mult of_int_numeral)
  then have "(1532620800 :: rat) / of_int b = of_int k"
    using assms(1) by (simp add: field_simps)
  moreover have "round_double (of_int k) = of_int k"
    using kpos kle by (intro round_double_of_int) simp_all
  ultimately show "js_div 1532620800 (of_int b) = Num (of_int (1532620800 div b))"
    using assms(1) d by (simp add: js_div_def)
qed

text \<open>
  The other side of C1. For every positive bit rate that divides 1532620800, the
  register values that \<open>setBaudRate\<close> computes, or its exception, are those of the
  specification's encoder: the quotient is an integer, so nothing is lost for want of
  flooring. The rates 1200, 2400, 4800, 9600, 19200, 38400, 57600, 115200, 230400 and
  460800 are of this kind; 250000, 500000 and 1000000 are not.
\<close>

theorem setBaudRate_values_exact_quotient:
  assumes "0 < b" and "b dvd 1532620800"
  shows "setBaudRate_values b = spec_encode b"
proof (cases "b = 921600")
  case True
  then show ?thesis
    by (simp add: setBaudRate_values_def spec_encode_def Let_def)
next
  case False
  define k where "k = fst (spec_loop (1532620800 div b, 3))"
  define d where "d = snd (spec_loop (1532620800 div b, 3))"
  have l: "setBaudRate_loop (js_div 1532620800 (of_int b), 3) = (Num (of_int k), d)"
    and kpos: "0 \<le> k"
    using js_div_exact [OF assms] setBaudRate_loop_of_int [of "1532620800 div b" 3]
    by (simp_all add: k_def d_def)
  have s: "spec_loop (1532620800 div b, 3) = (k, d)"
    by (simp add: k_def d_def)
  show ?thesis
  proof (cases "0xFFF0 < k")
    case True
    with False l s show ?thesis
      by (simp add: setBaudRate_values_def spec_encode_def Let_def)
  next
    case small: False
    have "round_double (of_int (0x10000 - k)) = of_int (0x10000 - k)"
      using small kpos by (intro round_double_of_int) simp_all
    then have "js_sub 0x10000 (Num (of_int k)) = Num (of_int (0x10000 - k))"
      by simp
    moreover have "ToInt32 (Num (of_int (0x10000 - k))) = 0x10000 - k"
      using small kpos by (intro ToInt32_of_int) simp_all
    ultimately show ?thesis
      using False l s small
      by (simp add: setBaudRate_values_def spec_encode_def Let_def del: ToInt32.simps js_sub.simps)
  qed
qed

text \<open>At 115200 bits per second the quotient is 13304.\<close>

theorem setBaudRate_values_standard_rates:
  "(0::int) < 115200 \<and> (115200::int) dvd 1532620800
   \<and> setBaudRate_values 115200 = spec_encode 115200
   \<and> spec_encode 115200 = Inr (0xCC83, 0x08)"
proof -
  have "(0::int) < 115200" and d: "(115200::int) dvd 1532620800" by simp_all
  moreover have "spec_encode 115200 = Inr (0xCC83, 0x08)" by code_simp
  ultimately show ?thesis
    using setBaudRate_values_exact_quotient [of 115200] by simp
qed

end
